theory Spec2Isabelle
  imports Complex_Main
begin

section \<open>Runtime values seen by the attribute resolver\<close>

text \<open>
  The resolver of \<^verbatim>\<open>interpreter\<close> walks a selector path over a Go \<^verbatim>\<open>interface{}\<close>.
  Two layers of values occur: CEL values (\<^verbatim>\<open>ref.Val\<close>), which are what a selector
  evaluates to, and native Go values, which are what an activation binds.

  \<^verbatim>\<open>ref.Val\<close>: only the dynamic types that the resolver tells apart are kept as
  constructors. A value that implements \<^verbatim>\<open>traits.Indexer\<close> is named by a number; its
  \<^verbatim>\<open>Get\<close> method is a parameter of the resolver model. The payload of a double is only
  stored and handed back, never computed on, so it is a \<open>real\<close>.
\<close>

datatype val =
    StringVal string
  | IntVal int
  | BoolVal bool
  | DoubleVal real
  | NullValue
  | ErrVal string
  | UnknownVal "int list"
  | IndexerVal nat
  | OtherVal nat

text \<open>The dynamic kind of a \<^verbatim>\<open>structpb.Value\<close>; \<open>KindUnset\<close> is a value whose oneof is empty.\<close>

datatype pbValue =
    PbNullValue
  | PbNumberValue real
  | PbStringValue string
  | PbBoolValue bool
  | PbStructValue "(string \<times> pbValue) list"
  | PbListValue "pbValue list"
  | PbKindUnset

text \<open>
  A \<^verbatim>\<open>proto.Message\<close>. \<open>AnyNil\<close> and \<open>ValueNil\<close> are the typed nil pointers that
  \<^verbatim>\<open>getProtoField\<close> tests for. \<open>Any url m\<close> is a packed message with type url \<open>url\<close>;
  \<open>m = None\<close> when \<^verbatim>\<open>ptypes.UnmarshalAny\<close> fails on it. \<open>OtherMessage\<close> is any other
  generated message, named by a number.
\<close>

datatype protoMessage =
    AnyNil
  | Any string "protoMessage option"
  | ValueNil
  | Value pbValue
  | Struct "(string \<times> pbValue) list"
  | ListValue "pbValue list"
  | OtherMessage nat

text \<open>The \<^verbatim>\<open>reflect.Kind\<close> classes that the last branch of \<^verbatim>\<open>getElem\<close> tells apart.\<close>

datatype reflectKind = KindMap | KindArray | KindSlice | KindOther

text \<open>
  A Go \<^verbatim>\<open>interface{}\<close> as \<^verbatim>\<open>getElem\<close> classifies it. \<open>GoNil\<close> is the nil interface
  value. Maps are association lists read with \<open>map_of\<close>. \<open>GoString\<close> to \<open>GoBool\<close> are the
  native scalars that the typed maps and lists hand back. \<open>Native k n\<close> is any other
  native value, of reflect kind \<open>k\<close>.
\<close>

datatype obj =
    GoNil
  | MapIface "(string \<times> obj) list"
  | MapStr "(string \<times> string) list"
  | MapFloat32 "(string \<times> real) list"
  | MapFloat64 "(string \<times> real) list"
  | MapInt "(string \<times> int) list"
  | MapInt32 "(string \<times> int) list"
  | MapInt64 "(string \<times> int) list"
  | MapBool "(string \<times> bool) list"
  | ListIface "obj list"
  | ListStr "string list"
  | ListFloat32 "real list"
  | ListFloat64 "real list"
  | ListInt "int list"
  | ListInt32 "int list"
  | ListInt64 "int list"
  | Proto protoMessage
  | RefVal val
  | GoString string
  | GoFloat32 real
  | GoFloat64 real
  | GoInt int
  | GoInt32 int
  | GoInt64 int
  | GoBool bool
  | Native reflectKind nat

text \<open>A Go run-time panic. The resolver and the program never recover from one.\<close>

datatype fault = NilDereference | IndexOutOfRange | NegativeLen

section \<open>Helpers of package types\<close>

text \<open>
  Modelled from the spec: \<^verbatim>\<open>types.ValOrErr\<close> and \<^verbatim>\<open>types.NewErr\<close> are not among the
  sources. By the spec an error or unknown sentinel dominates: an operation applied to one
  returns it unchanged. So \<^verbatim>\<open>ValOrErr(v, msg)\<close> is \<open>v\<close> when \<open>v\<close> is a sentinel and a new
  error carrying \<open>msg\<close> otherwise.
\<close>

definition NewErr :: "string \<Rightarrow> val" where
  "NewErr msg = ErrVal msg"

fun ValOrErr :: "val \<Rightarrow> string \<Rightarrow> val" where
  "ValOrErr (ErrVal e) msg = ErrVal e"
| "ValOrErr (UnknownVal ids) msg = UnknownVal ids"
| "ValOrErr v msg = NewErr msg"

section \<open>The default resolver\<close>

text \<open>
  \<^verbatim>\<open>defaultResolver\<close> holds the type adapter. \<open>indexerGet n\<close> is the \<^verbatim>\<open>Get\<close> method of the
  indexer value \<open>IndexerVal n\<close>: Go dispatches it on the value, the model looks it up here.
\<close>

record defaultResolver =
  adapter :: "obj \<Rightarrow> val"
  indexerGet :: "nat \<Rightarrow> val \<Rightarrow> val"

text \<open>
  \<^verbatim>\<open>getMapStrVal\<close>: the one typed-map lookup that returns when the key is not a string.
\<close>

definition getMapStrVal :: "(string \<times> string) list \<Rightarrow> val \<Rightarrow> obj" where
  "getMapStrVal m k =
     (case k of
        StringVal key \<Rightarrow>
          (case map_of m key of None \<Rightarrow> RefVal (NewErr ''no such key'') | Some v \<Rightarrow> GoString v)
      | _ \<Rightarrow> RefVal (ValOrErr k ''no such overload''))"

text \<open>
  \<^verbatim>\<open>getMapFloat32Val\<close> to \<^verbatim>\<open>getMapBoolVal\<close>: when the type assertion
  \<^verbatim>\<open>key, ok := k.(types.String)\<close> fails, the source calls \<^verbatim>\<open>types.ValOrErr\<close> and drops
  its result (there is no \<^verbatim>\<open>return\<close>), so control reaches the lookup with \<open>key\<close> the
  zero value of \<^verbatim>\<open>types.String\<close>, the empty string. \<open>assertString\<close> is that assertion.
\<close>

definition assertString :: "val \<Rightarrow> string" where
  "assertString k = (case k of StringVal key \<Rightarrow> key | _ \<Rightarrow> [])"

definition getMapFloat32Val :: "(string \<times> real) list \<Rightarrow> val \<Rightarrow> obj" where
  "getMapFloat32Val m k =
     (case map_of m (assertString k) of
        None \<Rightarrow> RefVal (NewErr ''no such key'') | Some v \<Rightarrow> GoFloat32 v)"

definition getMapFloat64Val :: "(string \<times> real) list \<Rightarrow> val \<Rightarrow> obj" where
  "getMapFloat64Val m k =
     (case map_of m (assertString k) of
        None \<Rightarrow> RefVal (NewErr ''no such key'') | Some v \<Rightarrow> GoFloat64 v)"

definition getMapIntVal :: "(string \<times> int) list \<Rightarrow> val \<Rightarrow> obj" where
  "getMapIntVal m k =
     (case map_of m (assertString k) of
        None \<Rightarrow> RefVal (NewErr ''no such key'') | Some v \<Rightarrow> GoInt v)"

definition getMapInt32Val :: "(string \<times> int) list \<Rightarrow> val \<Rightarrow> obj" where
  "getMapInt32Val m k =
     (case map_of m (assertString k) of
        None \<Rightarrow> RefVal (NewErr ''no such key'') | Some v \<Rightarrow> GoInt32 v)"

definition getMapInt64Val :: "(string \<times> int) list \<Rightarrow> val \<Rightarrow> obj" where
  "getMapInt64Val m k =
     (case map_of m (assertString k) of
        None \<Rightarrow> RefVal (NewErr ''no such key'') | Some v \<Rightarrow> GoInt64 v)"

definition getMapBoolVal :: "(string \<times> bool) list \<Rightarrow> val \<Rightarrow> obj" where
  "getMapBoolVal m k =
     (case map_of m (assertString k) of
        None \<Rightarrow> RefVal (NewErr ''no such key'') | Some v \<Rightarrow> GoBool v)"

text \<open>
  The seven list lookups share one shape: the selector must be an \<^verbatim>\<open>Int\<close>, and an index
  outside \<open>0 \<le> index < len(l)\<close> is \<^verbatim>\<open>ValOrErr(idx, "index out of range")\<close>, a new error
  since \<open>idx\<close> is an \<^verbatim>\<open>Int\<close>. \<open>getListVal wrap\<close> is that shape; \<open>wrap\<close> boxes the element.
\<close>

definition getListVal :: "('a \<Rightarrow> obj) \<Rightarrow> 'a list \<Rightarrow> val \<Rightarrow> obj" where
  "getListVal wrap l i =
     (case i of
        IntVal idx \<Rightarrow>
          (if idx < 0 \<or> idx \<ge> int (length l)
           then RefVal (ValOrErr (IntVal idx) ''index out of range'')
           else wrap (l ! nat idx))
      | _ \<Rightarrow> RefVal (ValOrErr i ''no such overload''))"

definition getListIFaceVal :: "obj list \<Rightarrow> val \<Rightarrow> obj" where
  "getListIFaceVal = getListVal (\<lambda>v. v)"

definition getListStrVal :: "string list \<Rightarrow> val \<Rightarrow> obj" where
  "getListStrVal = getListVal GoString"

definition getListFloat32Val :: "real list \<Rightarrow> val \<Rightarrow> obj" where
  "getListFloat32Val = getListVal GoFloat32"

definition getListFloat64Val :: "real list \<Rightarrow> val \<Rightarrow> obj" where
  "getListFloat64Val = getListVal GoFloat64"

definition getListIntVal :: "int list \<Rightarrow> val \<Rightarrow> obj" where
  "getListIntVal = getListVal GoInt"

definition getListInt32Val :: "int list \<Rightarrow> val \<Rightarrow> obj" where
  "getListInt32Val = getListVal GoInt32"

definition getListInt64Val :: "int list \<Rightarrow> val \<Rightarrow> obj" where
  "getListInt64Val = getListVal GoInt64"

text \<open>\<^verbatim>\<open>maybeUnwrapValue\<close>: scalar JSON values become Go scalars, the rest stays a message.\<close>

fun maybeUnwrapValue :: "pbValue \<Rightarrow> obj" where
  "maybeUnwrapValue (PbBoolValue b) = GoBool b"
| "maybeUnwrapValue PbNullValue = RefVal NullValue"
| "maybeUnwrapValue (PbNumberValue x) = GoFloat64 x"
| "maybeUnwrapValue (PbStringValue s) = GoString s"
| "maybeUnwrapValue v = Proto (Value v)"

definition getStructField :: "(string \<times> pbValue) list \<Rightarrow> val \<Rightarrow> obj" where
  "getStructField flds k =
     (case k of
        StringVal key \<Rightarrow>
          (case map_of flds key of
             None \<Rightarrow> RefVal (NewErr ''no such key'')
           | Some v \<Rightarrow> maybeUnwrapValue v)
      | _ \<Rightarrow> RefVal (ValOrErr k ''no such overload''))"

definition getListValueElem :: "pbValue list \<Rightarrow> val \<Rightarrow> obj" where
  "getListValueElem elems i =
     (case i of
        IntVal idx \<Rightarrow>
          (if idx < 0 \<or> idx \<ge> int (length elems)
           then RefVal (NewErr ''index out of range'')
           else maybeUnwrapValue (elems ! nat idx))
      | _ \<Rightarrow> RefVal (ValOrErr i ''no such overload''))"

text \<open>
  The reflective fallback shared by \<^verbatim>\<open>getProtoField\<close> and the last branch of
  \<^verbatim>\<open>getElem\<close>: adapt the native value, then use its \<^verbatim>\<open>Get\<close> if it is an indexer.
  In \<^verbatim>\<open>getProtoField\<close> the two messages about \<^verbatim>\<open>Any\<close> are format strings in the
  source; the model keeps their fixed part (and the type url).
\<close>

definition adaptAndGet :: "defaultResolver \<Rightarrow> obj \<Rightarrow> val \<Rightarrow> obj" where
  "adaptAndGet res o' elem =
     (case adapter res o' of
        IndexerVal n \<Rightarrow> RefVal (indexerGet res n elem)
      | v \<Rightarrow> RefVal (ValOrErr v ''no such overload''))"

fun getProtoField :: "defaultResolver \<Rightarrow> protoMessage \<Rightarrow> val \<Rightarrow> obj" where
  "getProtoField res AnyNil elem = RefVal (NewErr ''unsupported type conversion'')"
| "getProtoField res (Any url None) elem = RefVal (NewErr (''unknown type: '' @ url))"
| "getProtoField res (Any url (Some m)) elem = getProtoField res m elem"
| "getProtoField res ValueNil elem = RefVal (NewErr ''no such overload'')"
| "getProtoField res (Value (PbStructValue flds)) elem = getStructField flds elem"
| "getProtoField res (Value (PbListValue elems)) elem = getListValueElem elems elem"
| "getProtoField res (Value v) elem = RefVal (NewErr ''no such overload'')"
| "getProtoField res (Struct flds) elem = getStructField flds elem"
| "getProtoField res (ListValue elems) elem = getListValueElem elems elem"
| "getProtoField res (OtherMessage n) elem = adaptAndGet res (Proto (OtherMessage n)) elem"

text \<open>
  \<^verbatim>\<open>getElem\<close>, one selector step. The cases keep the order of the type switch. No case of
  the switch matches the nil interface, so \<open>GoNil\<close> reaches \<^verbatim>\<open>default\<close>, where
  \<^verbatim>\<open>reflect.TypeOf(o)\<close> is nil and \<^verbatim>\<open>objType.Kind()\<close> dereferences it: a panic.
\<close>

fun getElem :: "defaultResolver \<Rightarrow> obj \<Rightarrow> val \<Rightarrow> fault + obj" where
  "getElem res (MapIface m) elem =
     (case elem of
        StringVal key \<Rightarrow>
          (case map_of m key of
             None \<Rightarrow> Inr (RefVal (NewErr ''no such key''))
           | Some v \<Rightarrow> Inr v)
      | _ \<Rightarrow> Inr (RefVal (ValOrErr elem ''no such overload'')))"
| "getElem res (MapStr m) elem = Inr (getMapStrVal m elem)"
| "getElem res (MapFloat32 m) elem = Inr (getMapFloat32Val m elem)"
| "getElem res (MapFloat64 m) elem = Inr (getMapFloat64Val m elem)"
| "getElem res (MapInt m) elem = Inr (getMapIntVal m elem)"
| "getElem res (MapInt32 m) elem = Inr (getMapInt32Val m elem)"
| "getElem res (MapInt64 m) elem = Inr (getMapInt64Val m elem)"
| "getElem res (MapBool m) elem = Inr (getMapBoolVal m elem)"
| "getElem res (ListIface l) elem = Inr (getListIFaceVal l elem)"
| "getElem res (ListStr l) elem = Inr (getListStrVal l elem)"
| "getElem res (ListFloat32 l) elem = Inr (getListFloat32Val l elem)"
| "getElem res (ListFloat64 l) elem = Inr (getListFloat64Val l elem)"
| "getElem res (ListInt l) elem = Inr (getListIntVal l elem)"
| "getElem res (ListInt32 l) elem = Inr (getListInt32Val l elem)"
| "getElem res (ListInt64 l) elem = Inr (getListInt64Val l elem)"
| "getElem res (Proto m) elem = Inr (getProtoField res m elem)"
| "getElem res (RefVal (IndexerVal n)) elem = Inr (RefVal (indexerGet res n elem))"
| "getElem res (RefVal (ErrVal e)) elem = Inr (RefVal (ErrVal e))"
| "getElem res (RefVal (UnknownVal ids)) elem = Inr (RefVal (UnknownVal ids))"
| "getElem res (RefVal v) elem = Inr (RefVal (ValOrErr v ''no such overload''))"
| "getElem res GoNil elem = Inl NilDereference"
| "getElem res (Native KindOther n) elem = Inr (RefVal (NewErr ''no such overload''))"
| "getElem res (Native k n) elem = Inr (adaptAndGet res (Native k n) elem)"
| "getElem res v elem = Inr (RefVal (NewErr ''no such overload''))"

section \<open>Attributes and activations\<close>

text \<open>
  An attribute is a variable (\<open>varName\<close> and \<open>varID\<close> for its methods \<^verbatim>\<open>Name()\<close> and
  \<^verbatim>\<open>ID()\<close>) with a selector path. A path element
  carries the id of its expression; \<open>expr\<close> names the expression it evaluates. The method
  \<^verbatim>\<open>PathElem.ToValue(vars)\<close> is not among the sources: the resolvers take it as the
  parameter \<open>ToValue\<close>.

  An activation answers \<^verbatim>\<open>Find(name)\<close>; a partial activation also answers
  \<^verbatim>\<open>FindUnknowns(name)\<close> with the candidate unknown attributes of that variable.
  \<open>None\<close> is the result \<^verbatim>\<open>found = false\<close>.
\<close>

record PathElem =
  ID :: int
  expr :: nat

record Variable =
  varName :: string
  varID :: int

record Attribute =
  variable :: Variable
  path :: "PathElem list"

datatype Activation =
    Activation "string \<Rightarrow> obj option"
  | PartialActivation "string \<Rightarrow> obj option" "string \<Rightarrow> Attribute list option"

fun Find :: "Activation \<Rightarrow> string \<Rightarrow> obj option" where
  "Find (Activation b) name = b name"
| "Find (PartialActivation b u) name = b name"

type_synonym toValue = "PathElem \<Rightarrow> Activation \<Rightarrow> val"

text \<open>
  The loop \<^verbatim>\<open>for _, elem := range attrPath { obj = res.getElem(obj, elem.ToValue(vars)) }\<close>
  of \<^verbatim>\<open>Resolve\<close> and \<^verbatim>\<open>ResolveRelative\<close>. A panic in a step ends the walk.
\<close>

fun resolvePath :: "defaultResolver \<Rightarrow> toValue \<Rightarrow> Activation \<Rightarrow> obj \<Rightarrow> PathElem list \<Rightarrow> fault + obj" where
  "resolvePath res ToValue vars ob [] = Inr ob"
| "resolvePath res ToValue vars ob (elem # rest) =
     (case getElem res ob (ToValue elem vars) of
        Inl f \<Rightarrow> Inl f
      | Inr ob' \<Rightarrow> resolvePath res ToValue vars ob' rest)"

text \<open>\<^verbatim>\<open>defaultResolver.Resolve\<close>: the pair is \<^verbatim>\<open>(value, found)\<close>; \<^verbatim>\<open>nil, false\<close> is \<open>(GoNil, False)\<close>.\<close>

definition Resolve :: "defaultResolver \<Rightarrow> toValue \<Rightarrow> Activation \<Rightarrow> Attribute \<Rightarrow> fault + (obj \<times> bool)" where
  "Resolve res ToValue vars attr =
     (case Find vars (varName (variable attr)) of
        None \<Rightarrow> Inr (GoNil, False)
      | Some ob \<Rightarrow>
          (case resolvePath res ToValue vars ob (path attr) of
             Inl f \<Rightarrow> Inl f
           | Inr v \<Rightarrow> Inr (v, True)))"

definition ResolveRelative :: "defaultResolver \<Rightarrow> toValue \<Rightarrow> obj \<Rightarrow> Activation \<Rightarrow> Attribute \<Rightarrow> fault + obj" where
  "ResolveRelative res ToValue ob vars attr = resolvePath res ToValue vars ob (path attr)"

section \<open>The unknown-aware resolver\<close>

text \<open>\<^verbatim>\<open>var wildcard = types.String("*")\<close>.\<close>

definition wildcard :: val where
  "wildcard = StringVal ''*''"

text \<open>
  The inner loop of \<^verbatim>\<open>unknownResolver.Resolve\<close> over one candidate path. The index \<open>j\<close>
  of the source runs over the candidate path and reads \<^verbatim>\<open>varPath[j]\<close>, so the model walks
  both paths in step; the second equation is \<^verbatim>\<open>if j >= varPathLen { break }\<close>. The result is
  \<^verbatim>\<open>(isMatch, candUnkID)\<close>. \<open>Equal\<close> is the method \<^verbatim>\<open>ref.Val.Equal\<close>, a parameter, and
  \<^verbatim>\<open>types.True\<close> is \<open>BoolVal True\<close>.
\<close>

fun matchCandPath :: "toValue \<Rightarrow> (val \<Rightarrow> val \<Rightarrow> val) \<Rightarrow> Activation \<Rightarrow> PathElem list \<Rightarrow> PathElem list \<Rightarrow> int \<Rightarrow> bool \<times> int" where
  "matchCandPath ToValue Equal vars [] varPath candUnkID = (True, candUnkID)"
| "matchCandPath ToValue Equal vars (candElem # cs) [] candUnkID = (True, candUnkID)"
| "matchCandPath ToValue Equal vars (candElem # cs) (varElem # vs) candUnkID =
     (if ToValue candElem vars = wildcard
      then matchCandPath ToValue Equal vars cs vs (ID varElem)
      else if Equal (ToValue candElem vars) (ToValue varElem vars) \<noteq> BoolVal True
      then (False, ID varElem)
      else matchCandPath ToValue Equal vars cs vs (ID varElem))"

text \<open>The loop over the candidates: the id of the first candidate that matches.\<close>

fun firstUnknown :: "toValue \<Rightarrow> (val \<Rightarrow> val \<Rightarrow> val) \<Rightarrow> Activation \<Rightarrow> Attribute list \<Rightarrow> PathElem list \<Rightarrow> int \<Rightarrow> int option" where
  "firstUnknown ToValue Equal vars [] varPath varId = None"
| "firstUnknown ToValue Equal vars (cand # rest) varPath varId =
     (case matchCandPath ToValue Equal vars (path cand) varPath varId of
        (True, candUnkID) \<Rightarrow> Some candUnkID
      | (False, _) \<Rightarrow> firstUnknown ToValue Equal vars rest varPath varId)"

text \<open>
  \<^verbatim>\<open>unknownResolver.Resolve\<close>; \<open>inner\<close> is the \<^verbatim>\<open>Resolve\<close> method of the wrapped resolver.
\<close>

definition unknownResolve ::
  "(Activation \<Rightarrow> Attribute \<Rightarrow> fault + (obj \<times> bool)) \<Rightarrow> toValue \<Rightarrow> (val \<Rightarrow> val \<Rightarrow> val) \<Rightarrow>
   Activation \<Rightarrow> Attribute \<Rightarrow> fault + (obj \<times> bool)" where
  "unknownResolve inner ToValue Equal vars attr =
     (case vars of
        Activation b \<Rightarrow> inner vars attr
      | PartialActivation b FindUnknowns \<Rightarrow>
          (case FindUnknowns (varName (variable attr)) of
             None \<Rightarrow> inner vars attr
           | Some candUnknowns \<Rightarrow>
               (case firstUnknown ToValue Equal vars candUnknowns (path attr) (varID (variable attr)) of
                  Some candUnkID \<Rightarrow> Inr (RefVal (UnknownVal [candUnkID]), True)
                | None \<Rightarrow> inner vars attr)))"

text \<open>
  The matching rule in the words of the specification, to compare the loops with. A
  candidate matches when, pairing its path with the queried path up to the shorter length,
  each candidate element is the wildcard or equal to the queried element. The tag of a
  match is the id of the last queried element that was compared, or the variable's id when
  nothing was compared.
\<close>

definition candidateMatches :: "toValue \<Rightarrow> (val \<Rightarrow> val \<Rightarrow> val) \<Rightarrow> Activation \<Rightarrow> PathElem list \<Rightarrow> PathElem list \<Rightarrow> bool" where
  "candidateMatches ToValue Equal vars candPath varPath =
     list_all
       (\<lambda>(c, v). ToValue c vars = wildcard \<or> Equal (ToValue c vars) (ToValue v vars) = BoolVal True)
       (zip candPath varPath)"

definition unknownTag :: "PathElem list \<Rightarrow> PathElem list \<Rightarrow> int \<Rightarrow> int" where
  "unknownTag candPath varPath varId =
     (let n = min (length candPath) (length varPath)
      in if n = 0 then varId else ID (varPath ! (n - 1)))"

definition findUnknownCandidates :: "Activation \<Rightarrow> string \<Rightarrow> Attribute list option" where
  "findUnknownCandidates vars name =
     (case vars of Activation b \<Rightarrow> None | PartialActivation b u \<Rightarrow> u name)"

definition isSentinel :: "val \<Rightarrow> bool" where
  "isSentinel v = (case v of ErrVal e \<Rightarrow> True | UnknownVal ids \<Rightarrow> True | _ \<Rightarrow> False)"

section \<open>Instructions, scratch state and programs\<close>

text \<open>
  Modelled from the spec: the instruction types, \<^verbatim>\<open>functions.Overload\<close> and
  \<^verbatim>\<open>evalState\<close> are declared in files that are not among the sources. By the spec an
  instruction is a push-literal, a select-attribute, a call (function, arguments, optional
  bound implementation with an optional required trait), a conditional or unconditional
  jump, an enter-scope or an exit-scope, and carries its expression id; the scratch state
  maps an expression id to its computed value. \<open>NilInst\<close> is the nil interface value, which
  fills a slice made by \<^verbatim>\<open>make([]Instruction, n, n)\<close>. An overload is bound with a unary
  or a binary form; the other one is a nil function, \<open>None\<close>.

  Three fields are renamed because their names are taken: \<open>callID\<close> is the field
  \<^verbatim>\<open>ID\<close> of a call, \<open>valuesOf\<close> is the field \<^verbatim>\<open>values\<close> of the scratch state, and
  \<open>exprId\<close> is the field \<^verbatim>\<open>Id\<close> of an expression.
\<close>

record Overload =
  OperandTrait :: int
  Unary :: "(val \<Rightarrow> val) option"
  Binary :: "(val \<Rightarrow> val \<Rightarrow> val) option"

record CallExpr =
  callID :: int
  Function :: string
  Args :: "int list"
  Impl :: "Overload option"

datatype Instruction =
    NilInst
  | PushLiteral int
  | SelectExpr int
  | Call CallExpr
  | JumpInst int bool
  | PushScopeInst int
  | PopScopeInst int

record evalState =
  valuesOf :: "int \<Rightarrow> val option"

text \<open>\<^verbatim>\<open>inst.GetID()\<close>; on the nil interface the method call panics.\<close>

fun GetID :: "Instruction \<Rightarrow> fault + int" where
  "GetID NilInst = Inl NilDereference"
| "GetID (PushLiteral n) = Inr n"
| "GetID (SelectExpr n) = Inr n"
| "GetID (Call c) = Inr (callID c)"
| "GetID (JumpInst n conditional) = Inr n"
| "GetID (PushScopeInst n) = Inr n"
| "GetID (PopScopeInst n) = Inr n"

text \<open>
  The function names that \<^verbatim>\<open>computeConstExprs\<close> and \<^verbatim>\<open>maybeComputeConstCall\<close> compare
  with, from packages \<^verbatim>\<open>operators\<close> and \<^verbatim>\<open>overloads\<close>.
\<close>

definition operators_LogicalAnd :: string where
  "operators_LogicalAnd = ''_&&_''"

definition operators_LogicalOr :: string where
  "operators_LogicalOr = ''_||_''"

definition operators_NotStrictlyFalse :: string where
  "operators_NotStrictlyFalse = ''@not_strictly_false''"

definition operators_OldNotStrictlyFalse :: string where
  "operators_OldNotStrictlyFalse = ''__not_strictly_false__''"

definition overloads_Iterator :: string where
  "overloads_Iterator = ''@iterator''"

definition overloads_HasNext :: string where
  "overloads_HasNext = ''@hasNext''"

definition overloads_Next :: string where
  "overloads_Next = ''@next''"

text \<open>
  The source position table of \<^verbatim>\<open>exprpb.SourceInfo\<close> that \<^verbatim>\<open>exprMetadata\<close> reads:
  the line offsets (\<^verbatim>\<open>[]int32\<close>) and the positions (\<^verbatim>\<open>map[int64]int32\<close>).
\<close>

record SourceInfo =
  LineOffsets :: "int list"
  Positions :: "int \<Rightarrow> int option"

text \<open>An expression: its id (the field \<^verbatim>\<open>Id\<close>), and a number that names its tree.\<close>

record Expr =
  exprId :: int
  tree :: nat

text \<open>
  \<^verbatim>\<open>Program\<close>. \<open>Instructions = None\<close> is the nil slice. \<open>revInstructions\<close> is a
  \<^verbatim>\<open>map[int64]int\<close>; \<open>refMap\<close> is carried and never read here.
\<close>

record Program =
  expression :: Expr
  Instructions :: "Instruction list option"
  metadata :: SourceInfo
  refMap :: "int \<Rightarrow> nat option"
  revInstructions :: "int \<Rightarrow> int option"
  flags :: int
  resultID :: int

definition programFlagTrackState :: int where
  "programFlagTrackState = 1"

definition programFlagNoShortCircuit :: int where
  "programFlagNoShortCircuit = 2"

definition programFlagExhaustive :: int where
  "programFlagExhaustive = or programFlagTrackState programFlagNoShortCircuit"

text \<open>
  \<^verbatim>\<open>GetInstruction\<close>: a key missing from the map reads as the zero index, and an index
  outside the slice (always, when the slice is nil or empty) is a panic.
\<close>

definition GetInstruction :: "Program \<Rightarrow> int \<Rightarrow> fault + Instruction" where
  "GetInstruction p runtimeID =
     (let idx = (case revInstructions p runtimeID of None \<Rightarrow> 0 | Some i \<Rightarrow> i);
          insts = (case Instructions p of None \<Rightarrow> [] | Some l \<Rightarrow> l)
      in if 0 \<le> idx \<and> idx < int (length insts) then Inr (insts ! nat idx)
         else Inl IndexOutOfRange)"

text \<open>
  \<^verbatim>\<open>WalkExpr\<close> is not among the sources: \<^verbatim>\<open>plan\<close> takes it as a parameter. It receives
  the expression, the metadata, the scratch state (which it may write) and the
  short-circuit flag, and returns the instructions, possibly the nil slice.
\<close>

type_synonym walkExpr =
  "Expr \<Rightarrow> SourceInfo \<Rightarrow> evalState \<Rightarrow> bool \<Rightarrow> Instruction list option \<times> evalState"

text \<open>The loop \<^verbatim>\<open>for i, inst := range p.Instructions { p.revInstructions[inst.GetID()] = i }\<close>.\<close>

fun indexInstructions :: "Instruction list \<Rightarrow> int \<Rightarrow> (int \<Rightarrow> int option) \<Rightarrow> fault + (int \<Rightarrow> int option)" where
  "indexInstructions [] i revMap = Inr revMap"
| "indexInstructions (inst # rest) i revMap =
     (case GetID inst of
        Inl f \<Rightarrow> Inl f
      | Inr n \<Rightarrow> indexInstructions rest (i + 1) (revMap(n \<mapsto> i)))"

definition plan :: "walkExpr \<Rightarrow> Program \<Rightarrow> evalState \<Rightarrow> fault + (Program \<times> evalState)" where
  "plan WalkExpr p state =
     (case Instructions p of
        Some insts \<Rightarrow> Inr (p, state)
      | None \<Rightarrow>
          (let shortcircuit = (and (flags p) programFlagNoShortCircuit = 0);
               walked = WalkExpr (expression p) (metadata p) state shortcircuit
           in case indexInstructions (case fst walked of None \<Rightarrow> [] | Some l \<Rightarrow> l) 0
                     (revInstructions p) of
                Inl f \<Rightarrow> Inl f
              | Inr revMap \<Rightarrow>
                  Inr (p\<lparr>resultID := exprId (expression p), Instructions := fst walked,
                          revInstructions := revMap\<rparr>,
                       snd walked)))"

section \<open>Constant folding\<close>

text \<open>
  \<^verbatim>\<open>maybeComputeConstCall\<close>. The result is the boolean and the scratch state as written.
  \<open>HasTrait v t\<close> is \<^verbatim>\<open>v.Type().HasTrait(t)\<close>, a parameter. Calling the unary form of an
  overload that has none (or the binary form) is a call of a nil function.
\<close>

definition maybeComputeConstCall ::
  "(val \<Rightarrow> int \<Rightarrow> bool) \<Rightarrow> CallExpr \<Rightarrow> evalState \<Rightarrow> fault + (bool \<times> evalState)" where
  "maybeComputeConstCall HasTrait call state =
     (case Impl call of
        None \<Rightarrow> Inr (False, state)
      | Some impl \<Rightarrow>
          if Function call = operators_NotStrictlyFalse \<or>
             Function call = operators_OldNotStrictlyFalse \<or>
             Function call = overloads_Iterator \<or>
             Function call = overloads_HasNext \<or>
             Function call = overloads_Next
          then Inr (False, state)
          else
            (case Args call of
               [a0] \<Rightarrow>
                 (case valuesOf state a0 of
                    None \<Rightarrow> Inr (False, state)
                  | Some arg0 \<Rightarrow>
                      if OperandTrait impl \<noteq> 0 \<and> \<not> HasTrait arg0 (OperandTrait impl)
                      then Inr (False, state)
                      else
                        (case Unary impl of
                           None \<Rightarrow> Inl NilDereference
                         | Some f \<Rightarrow>
                             Inr (True, state\<lparr>valuesOf := (valuesOf state)(callID call \<mapsto> f arg0)\<rparr>)))
             | [a0, a1] \<Rightarrow>
                 (case (valuesOf state a0, valuesOf state a1) of
                    (Some arg0, Some arg1) \<Rightarrow>
                      if OperandTrait impl \<noteq> 0 \<and> \<not> HasTrait arg0 (OperandTrait impl)
                      then Inr (False, state)
                      else
                        (case Binary impl of
                           None \<Rightarrow> Inl NilDereference
                         | Some f \<Rightarrow>
                             Inr (True,
                                  state\<lparr>valuesOf := (valuesOf state)(callID call \<mapsto> f arg0 arg1)\<rparr>))
                  | _ \<Rightarrow> Inr (False, state))
             | _ \<Rightarrow> Inr (False, state)))"

text \<open>
  The first loop of \<^verbatim>\<open>computeConstExprs\<close>, from instruction \<open>i\<close> on: \<open>nested\<close> is the
  scope depth counter and \<open>constInsts\<close> the indices collected so far. A call that folds
  appends its index, and before it \<open>i - 1\<close> when the function is the logical and or or.
\<close>

fun findConstInsts ::
  "(val \<Rightarrow> int \<Rightarrow> bool) \<Rightarrow> Instruction list \<Rightarrow> int \<Rightarrow> int \<Rightarrow> int list \<Rightarrow> evalState \<Rightarrow>
   fault + (int list \<times> evalState)" where
  "findConstInsts HasTrait [] i nested constInsts state = Inr (constInsts, state)"
| "findConstInsts HasTrait (PushScopeInst n # rest) i nested constInsts state =
     findConstInsts HasTrait rest (i + 1) (nested + 1) constInsts state"
| "findConstInsts HasTrait (PopScopeInst n # rest) i nested constInsts state =
     findConstInsts HasTrait rest (i + 1) (nested - 1) constInsts state"
| "findConstInsts HasTrait (Call call # rest) i nested constInsts state =
     (if nested \<noteq> 0 then findConstInsts HasTrait rest (i + 1) nested constInsts state
      else
        (case maybeComputeConstCall HasTrait call state of
           Inl f \<Rightarrow> Inl f
         | Inr (True, state') \<Rightarrow>
             findConstInsts HasTrait rest (i + 1) nested
               ((if Function call = operators_LogicalAnd \<or> Function call = operators_LogicalOr
                 then constInsts @ [i - 1] else constInsts) @ [i])
               state'
         | Inr (False, state') \<Rightarrow>
             findConstInsts HasTrait rest (i + 1) nested constInsts state'))"
| "findConstInsts HasTrait (inst # rest) i nested constInsts state =
     findConstInsts HasTrait rest (i + 1) nested constInsts state"

text \<open>
  The copy loops. \<open>copyBefore\<close> is \<^verbatim>\<open>for i < j { optInsts[oi] = instructions[i]; oi++; i++ }\<close>
  and \<open>copyRest\<close> is the same body under \<^verbatim>\<open>for oi < optInstsCnt\<close>. Reading or writing
  outside a slice is a panic.
\<close>

function copyBefore ::
  "Instruction list \<Rightarrow> int \<Rightarrow> Instruction list \<Rightarrow> int \<Rightarrow> int \<Rightarrow>
   fault + (Instruction list \<times> int \<times> int)" where
  "copyBefore instructions j optInsts oi i =
     (if i < j then
        (if i < 0 \<or> int (length instructions) \<le> i \<or> oi < 0 \<or> int (length optInsts) \<le> oi
         then Inl IndexOutOfRange
         else copyBefore instructions j (optInsts[nat oi := instructions ! nat i]) (oi + 1) (i + 1))
      else Inr (optInsts, oi, i))"
  by pat_completeness auto
termination
  by (relation "measure (\<lambda>(instructions, j, optInsts, oi, i). nat (j - i))") auto

declare copyBefore.simps [simp del]

function copyRest ::
  "Instruction list \<Rightarrow> int \<Rightarrow> Instruction list \<Rightarrow> int \<Rightarrow> int \<Rightarrow> fault + Instruction list" where
  "copyRest instructions optInstsCnt optInsts oi i =
     (if oi < optInstsCnt then
        (if i < 0 \<or> int (length instructions) \<le> i \<or> oi < 0 \<or> int (length optInsts) \<le> oi
         then Inl IndexOutOfRange
         else copyRest instructions optInstsCnt (optInsts[nat oi := instructions ! nat i])
                (oi + 1) (i + 1))
      else Inr optInsts)"
  by pat_completeness auto
termination
  by (relation "measure (\<lambda>(instructions, optInstsCnt, optInsts, oi, i). nat (optInstsCnt - oi))") auto

declare copyRest.simps [simp del]

text \<open>The loop \<^verbatim>\<open>for _, j := range constInsts { ...; i = j + 1 }\<close>.\<close>

fun spliceConstInsts ::
  "Instruction list \<Rightarrow> int list \<Rightarrow> Instruction list \<Rightarrow> int \<Rightarrow> int \<Rightarrow>
   fault + (Instruction list \<times> int \<times> int)" where
  "spliceConstInsts instructions [] optInsts oi i = Inr (optInsts, oi, i)"
| "spliceConstInsts instructions (j # js) optInsts oi i =
     (case copyBefore instructions j optInsts oi i of
        Inl f \<Rightarrow> Inl f
      | Inr (optInsts', oi', i') \<Rightarrow> spliceConstInsts instructions js optInsts' oi' (j + 1))"

text \<open>
  One pass of \<^verbatim>\<open>computeConstExprs\<close> over a non-nil instruction slice: a panic, a return
  because nothing folded, or the compacted instructions on which the pass is repeated.
  \<^verbatim>\<open>make\<close> with a negative length panics.
\<close>

datatype passResult = Fault fault | Halt evalState | Next "Instruction list" evalState

definition constPass :: "(val \<Rightarrow> int \<Rightarrow> bool) \<Rightarrow> Instruction list \<Rightarrow> evalState \<Rightarrow> passResult" where
  "constPass HasTrait instructions state =
     (case findConstInsts HasTrait instructions 0 0 [] state of
        Inl f \<Rightarrow> Fault f
      | Inr (constInsts, state') \<Rightarrow>
          if length constInsts = 0 then Halt state'
          else
            (let optInstsCnt = int (length instructions) - int (length constInsts)
             in if optInstsCnt < 0 then Fault NegativeLen
                else
                  (case spliceConstInsts instructions constInsts
                          (replicate (nat optInstsCnt) NilInst) 0 0 of
                     Inl f \<Rightarrow> Fault f
                   | Inr (optInsts, oi, i) \<Rightarrow>
                       (case copyRest instructions optInstsCnt optInsts oi i of
                          Inl f \<Rightarrow> Fault f
                        | Inr optInsts' \<Rightarrow> Next optInsts' state'))))"

section \<open>Source positions\<close>

text \<open>
  \<^verbatim>\<open>IDOffset\<close> and \<^verbatim>\<open>IDLocation\<close>. The loop assigns the range variables \<open>index\<close> and
  \<open>lineOffset\<close> declared before it, so after a \<^verbatim>\<open>break\<close> \<open>lineOffset\<close> holds the offset
  that ended the loop. \<open>lineScan\<close> returns \<open>(lineIndex, lineOffset)\<close> as they stand after
  the loop. The column is an \<^verbatim>\<open>int32\<close> difference, which wraps.
\<close>

record Location =
  line :: int
  column :: int

definition IDOffset :: "SourceInfo \<Rightarrow> int \<Rightarrow> int option" where
  "IDOffset info exprID = Positions info exprID"

fun lineScan :: "int list \<Rightarrow> int \<Rightarrow> int \<Rightarrow> int \<Rightarrow> int \<Rightarrow> int \<times> int" where
  "lineScan [] exprOffset index lineIndex lineOffset = (lineIndex, lineOffset)"
| "lineScan (lo # rest) exprOffset index lineIndex lineOffset =
     (if lo > exprOffset then (lineIndex, lo)
      else lineScan rest exprOffset (index + 1) index lo)"

definition wrap32 :: "int \<Rightarrow> int" where
  "wrap32 x = (x + 2147483648) mod 4294967296 - 2147483648"

definition IDLocation :: "SourceInfo \<Rightarrow> int \<Rightarrow> Location option" where
  "IDLocation info exprID =
     (case IDOffset info exprID of
        None \<Rightarrow> None
      | Some exprOffset \<Rightarrow>
          (case lineScan (LineOffsets info) exprOffset 0 0 0 of
             (lineIndex, lineOffset) \<Rightarrow>
               Some \<lparr>line = lineIndex + 1, column = wrap32 (exprOffset - lineOffset)\<rparr>))"

section \<open>Scope depth\<close>

text \<open>
  The scope depth in the words of the specification: the counter goes up by one at each
  enter-scope instruction and down by one at each exit-scope instruction. The depth at
  which instruction \<open>k\<close> of a sequence sits is the depth after the \<open>k\<close> instructions before it.
\<close>

definition scopeDelta :: "Instruction \<Rightarrow> int" where
  "scopeDelta inst = (case inst of PushScopeInst n \<Rightarrow> 1 | PopScopeInst n \<Rightarrow> - 1 | _ \<Rightarrow> 0)"

definition scopeDepth :: "Instruction list \<Rightarrow> int" where
  "scopeDepth insts = sum_list (map scopeDelta insts)"

definition isCall :: "Instruction \<Rightarrow> bool" where
  "isCall inst = (case inst of Call c \<Rightarrow> True | _ \<Rightarrow> False)"

text \<open>
  An index \<open>e\<close> collected by the first loop is sound for the sequence \<open>xs\<close> when, if it
  points at a call, that call sits at depth zero.
\<close>

definition depthOk :: "Instruction list \<Rightarrow> int \<Rightarrow> bool" where
  "depthOk xs e =
     (0 \<le> e \<longrightarrow> nat e < length xs \<longrightarrow> isCall (xs ! nat e) \<longrightarrow> scopeDepth (take (nat e) xs) = 0)"

section \<open>The folding fixpoint\<close>

text \<open>
  \<^verbatim>\<open>computeConstExprs\<close> calls itself on the compacted instructions. The recursion is
  well-founded because a pass that goes on has filled a slice that \<^verbatim>\<open>make\<close> created
  with fewer slots than there were instructions; the copy loops write slots and never
  change the length.
\<close>

lemma copyBefore_length:
  "copyBefore instructions j optInsts oi i = Inr (optInsts', oi', i') \<Longrightarrow>
   length optInsts' = length optInsts"
proof (induction instructions j optInsts oi i rule: copyBefore.induct)
  case (1 instructions j optInsts oi i)
  from "1.prems" show ?case
    by (subst (asm) copyBefore.simps) (auto split: if_splits dest: "1.IH")
qed

lemma spliceConstInsts_length:
  "spliceConstInsts instructions js optInsts oi i = Inr (optInsts', oi', i') \<Longrightarrow>
   length optInsts' = length optInsts"
  by (induction js arbitrary: optInsts oi i)
     (auto split: sum.splits dest: copyBefore_length)

lemma copyRest_length:
  "copyRest instructions optInstsCnt optInsts oi i = Inr optInsts' \<Longrightarrow>
   length optInsts' = length optInsts"
proof (induction instructions optInstsCnt optInsts oi i rule: copyRest.induct)
  case (1 instructions optInstsCnt optInsts oi i)
  from "1.prems" show ?case
    by (subst (asm) copyRest.simps) (auto split: if_splits dest: "1.IH")
qed

lemma constPass_Next_length:
  assumes "constPass HasTrait instructions state = Next optInsts state'"
  shows "length optInsts < length instructions"
proof -
  obtain constInsts st where f:
    "findConstInsts HasTrait instructions 0 0 [] state = Inr (constInsts, st)"
    using assms by (auto simp: constPass_def split: sum.splits)
  have ne: "length constInsts \<noteq> 0"
    using assms f by (auto simp: constPass_def)
  let ?cnt = "int (length instructions) - int (length constInsts)"
  have nonneg: "\<not> ?cnt < 0"
    using assms f ne by (auto simp: constPass_def Let_def)
  obtain o1 oi i where sp:
    "spliceConstInsts instructions constInsts (replicate (nat ?cnt) NilInst) 0 0 = Inr (o1, oi, i)"
    using assms f ne nonneg by (auto simp: constPass_def Let_def split: sum.splits)
  have cr: "copyRest instructions ?cnt o1 oi i = Inr optInsts"
    using assms f ne nonneg sp by (auto simp: constPass_def Let_def split: sum.splits)
  have "length optInsts = nat ?cnt"
    using spliceConstInsts_length [OF sp] copyRest_length [OF cr] by simp
  then show ?thesis
    using ne nonneg by linarith
qed

text \<open>
  \<^verbatim>\<open>computeConstExprs\<close>: nothing to do on the nil slice; otherwise one pass, and the
  recursive call on the compacted instructions when the pass folded something.
\<close>

function computeConstExprs ::
  "(val \<Rightarrow> int \<Rightarrow> bool) \<Rightarrow> Program \<Rightarrow> evalState \<Rightarrow> fault + (Program \<times> evalState)" where
  "computeConstExprs HasTrait p state =
     (case Instructions p of
        None \<Rightarrow> Inr (p, state)
      | Some instructions \<Rightarrow>
          (case constPass HasTrait instructions state of
             Fault f \<Rightarrow> Inl f
           | Halt state' \<Rightarrow> Inr (p, state')
           | Next optInsts state' \<Rightarrow>
               computeConstExprs HasTrait (p\<lparr>Instructions := Some optInsts\<rparr>) state'))"
  by pat_completeness auto
termination
  by (relation "measure (\<lambda>(HasTrait, p, state).
        case Instructions p of None \<Rightarrow> 0 | Some instructions \<Rightarrow> length instructions)")
     (auto dest: constPass_Next_length)

declare computeConstExprs.simps [simp del]

text \<open>
  \<^verbatim>\<open>computeConstExprs\<close> cut off after \<open>n\<close> passes: \<open>None\<close> when \<open>n\<close> passes were not
  enough. It serves to state how many passes the recursion takes.
\<close>

fun computeConstExprsWithin ::
  "nat \<Rightarrow> (val \<Rightarrow> int \<Rightarrow> bool) \<Rightarrow> Program \<Rightarrow> evalState \<Rightarrow> (fault + (Program \<times> evalState)) option" where
  "computeConstExprsWithin 0 HasTrait p state = None"
| "computeConstExprsWithin (Suc n) HasTrait p state =
     (case Instructions p of
        None \<Rightarrow> Some (Inr (p, state))
      | Some instructions \<Rightarrow>
          (case constPass HasTrait instructions state of
             Fault f \<Rightarrow> Some (Inl f)
           | Halt state' \<Rightarrow> Some (Inr (p, state'))
           | Next optInsts state' \<Rightarrow>
               computeConstExprsWithin n HasTrait (p\<lparr>Instructions := Some optInsts\<rparr>) state'))"

section \<open>Properties of the resolvers\<close>

lemma getElem_sentinel:
  "isSentinel s \<Longrightarrow> getElem res (RefVal s) elem = Inr (RefVal s)"
  by (cases s) (simp_all add: isSentinel_def)

lemma resolvePath_sentinel:
  "isSentinel s \<Longrightarrow> resolvePath res ToValue vars (RefVal s) p = Inr (RefVal s)"
  by (induction p) (simp_all add: getElem_sentinel)

lemma resolvePath_append:
  "resolvePath res ToValue vars ob (p1 @ p2) =
     (case resolvePath res ToValue vars ob p1 of
        Inl f \<Rightarrow> Inl f
      | Inr ob' \<Rightarrow> resolvePath res ToValue vars ob' p2)"
  by (induction p1 arbitrary: ob) (simp_all split: sum.splits)

lemma matchCandPath_fst:
  "fst (matchCandPath ToValue Equal vars candPath varPath candUnkID) =
     candidateMatches ToValue Equal vars candPath varPath"
  by (induction ToValue Equal vars candPath varPath candUnkID rule: matchCandPath.induct)
     (simp_all add: candidateMatches_def)

lemma matchCandPath_snd:
  "fst (matchCandPath ToValue Equal vars candPath varPath candUnkID) \<Longrightarrow>
   snd (matchCandPath ToValue Equal vars candPath varPath candUnkID) =
     (if min (length candPath) (length varPath) = 0 then candUnkID
      else ID (varPath ! (min (length candPath) (length varPath) - 1)))"
proof (induction ToValue Equal vars candPath varPath candUnkID rule: matchCandPath.induct)
  case (3 ToValue Equal vars candElem cs varElem vs candUnkID)
  then show ?case
    by (cases cs; cases vs) (auto split: if_splits)
qed simp_all

lemma firstUnknown_find:
  "firstUnknown ToValue Equal vars cands varPath varId =
     map_option (\<lambda>cand. unknownTag (path cand) varPath varId)
       (List.find (\<lambda>cand. candidateMatches ToValue Equal vars (path cand) varPath) cands)"
proof (induction cands)
  case Nil
  then show ?case by simp
next
  case (Cons cand rest)
  obtain m i where r: "matchCandPath ToValue Equal vars (path cand) varPath varId = (m, i)"
    by (cases "matchCandPath ToValue Equal vars (path cand) varPath varId")
  have m: "m = candidateMatches ToValue Equal vars (path cand) varPath"
    using matchCandPath_fst [of ToValue Equal vars "path cand" varPath varId] r by simp
  have i: "m \<Longrightarrow> i = unknownTag (path cand) varPath varId"
    using matchCandPath_snd [of ToValue Equal vars "path cand" varPath varId] r
    by (simp add: unknownTag_def Let_def)
  show ?case
    using Cons.IH r m i by (cases m) simp_all
qed

lemma Resolve_found_iff_present:
  "Resolve res ToValue vars attr = Inr (v, found) \<Longrightarrow>
   found = (Find vars (varName (variable attr)) \<noteq> None)"
  by (auto simp: Resolve_def split: option.splits sum.splits)

lemma Resolve_absent:
  "Find vars (varName (variable attr)) = None \<Longrightarrow> Resolve res ToValue vars attr = Inr (GoNil, False)"
  by (simp add: Resolve_def)

lemma Resolve_missing_key:
  "Find vars name = Some (MapIface m) \<Longrightarrow> map_of m key = None \<Longrightarrow>
   ToValue elem vars = StringVal key \<Longrightarrow>
   Resolve res ToValue vars \<lparr>variable = \<lparr>varName = name, varID = i\<rparr>, path = [elem]\<rparr>
     = Inr (RefVal (ErrVal ''no such key''), True)"
  by (simp add: Resolve_def NewErr_def)

text \<open>
  C1. Where \<^verbatim>\<open>Resolve\<close> returns, \<^verbatim>\<open>found\<close> is false exactly when the variable is absent
  (\<open>Resolve_found_iff_present\<close>, \<open>Resolve_absent\<close>), and a missing key of a present
  \<^verbatim>\<open>map[string]interface{}\<close> gives an error sentinel with \<^verbatim>\<open>found = true\<close>
  (\<open>Resolve_missing_key\<close>). But the claim also says that \<^verbatim>\<open>Resolve\<close> never raises. An
  activation may bind a variable to the nil interface value; with one selector on it,
  \<^verbatim>\<open>getElem\<close> reaches its default branch and dereferences the nil \<^verbatim>\<open>reflect.Type\<close>. The
  variable is present, so the documented result would be an error sentinel with
  \<^verbatim>\<open>found = true\<close>; the code panics instead.
\<close>

theorem Resolve_nil_binding_panics:
  "Resolve res ToValue (Activation (\<lambda>name. if name = ''x'' then Some GoNil else None))
     \<lparr>variable = \<lparr>varName = ''x'', varID = 1\<rparr>, path = [\<lparr>ID = 2, expr = 0\<rparr>]\<rparr>
   = Inl NilDereference"
  by (simp add: Resolve_def)

text \<open>
  C2. Dominance: a selector step applied to an error or unknown sentinel \<open>s\<close> returns \<open>s\<close>.
  So when the steps over \<open>p1\<close> end in \<open>s\<close>, the resolution over \<open>p1 @ p2\<close> ends in the
  same \<open>s\<close>, whatever the later selectors \<open>p2\<close> are; this holds for \<^verbatim>\<open>ResolveRelative\<close>
  on an object and for \<^verbatim>\<open>Resolve\<close> on a variable bound to it.
\<close>

theorem sentinel_dominates:
  "isSentinel s \<longrightarrow>
     getElem res (RefVal s) elem = Inr (RefVal s) \<and>
     (resolvePath res ToValue vars ob p1 = Inr (RefVal s) \<longrightarrow>
        ResolveRelative res ToValue ob vars \<lparr>variable = v, path = p1 @ p2\<rparr> = Inr (RefVal s) \<and>
        (Find vars (varName v) = Some ob \<longrightarrow>
           Resolve res ToValue vars \<lparr>variable = v, path = p1 @ p2\<rparr> = Inr (RefVal s, True)))"
  by (simp add: ResolveRelative_def Resolve_def resolvePath_append resolvePath_sentinel
      getElem_sentinel)

theorem sentinel_dominates_witness:
  "isSentinel (ErrVal ''no such key'') \<and>
   getElem \<lparr>adapter = (\<lambda>x. NullValue), indexerGet = (\<lambda>n k. NullValue)\<rparr>
     (RefVal (ErrVal ''no such key'')) (IntVal 0) = Inr (RefVal (ErrVal ''no such key'')) \<and>
   resolvePath \<lparr>adapter = (\<lambda>x. NullValue), indexerGet = (\<lambda>n k. NullValue)\<rparr>
     (\<lambda>e a. StringVal ''k'') (Activation (\<lambda>name. if name = ''x'' then Some (MapIface []) else None))
     (MapIface []) [\<lparr>ID = 2, expr = 0\<rparr>] = Inr (RefVal (ErrVal ''no such key'')) \<and>
   Find (Activation (\<lambda>name. if name = ''x'' then Some (MapIface []) else None)) ''x'' = Some (MapIface []) \<and>
   ResolveRelative \<lparr>adapter = (\<lambda>x. NullValue), indexerGet = (\<lambda>n k. NullValue)\<rparr>
     (\<lambda>e a. StringVal ''k'') (MapIface [])
     (Activation (\<lambda>name. if name = ''x'' then Some (MapIface []) else None))
     \<lparr>variable = \<lparr>varName = ''x'', varID = 1\<rparr>,
      path = [\<lparr>ID = 2, expr = 0\<rparr>] @ [\<lparr>ID = 3, expr = 1\<rparr>, \<lparr>ID = 4, expr = 2\<rparr>]\<rparr>
     = Inr (RefVal (ErrVal ''no such key'')) \<and>
   Resolve \<lparr>adapter = (\<lambda>x. NullValue), indexerGet = (\<lambda>n k. NullValue)\<rparr>
     (\<lambda>e a. StringVal ''k'') (Activation (\<lambda>name. if name = ''x'' then Some (MapIface []) else None))
     \<lparr>variable = \<lparr>varName = ''x'', varID = 1\<rparr>,
      path = [\<lparr>ID = 2, expr = 0\<rparr>] @ [\<lparr>ID = 3, expr = 1\<rparr>, \<lparr>ID = 4, expr = 2\<rparr>]\<rparr>
     = Inr (RefVal (ErrVal ''no such key''), True)"
proof -
  let ?res = "\<lparr>adapter = (\<lambda>x. NullValue), indexerGet = (\<lambda>n k. NullValue)\<rparr>"
  let ?tv = "\<lambda>(e::PathElem) (a::Activation). StringVal ''k''"
  let ?vars = "Activation (\<lambda>name. if name = ''x'' then Some (MapIface []) else None)"
  have s: "isSentinel (ErrVal ''no such key'')"
    by (simp add: isSentinel_def)
  have p: "resolvePath ?res ?tv ?vars (MapIface []) [\<lparr>ID = 2, expr = 0\<rparr>]
           = Inr (RefVal (ErrVal ''no such key''))"
    by (simp add: NewErr_def)
  have f: "Find ?vars ''x'' = Some (MapIface [])"
    by simp
  show ?thesis
    using s p f
      sentinel_dominates [where s = "ErrVal ''no such key''" and res = ?res and elem = "IntVal 0"
        and ToValue = ?tv and vars = ?vars and ob = "MapIface []"
        and ?p1.0 = "[\<lparr>ID = 2, expr = 0\<rparr>]" and v = "\<lparr>varName = ''x'', varID = 1\<rparr>"
        and ?p2.0 = "[\<lparr>ID = 3, expr = 1\<rparr>, \<lparr>ID = 4, expr = 2\<rparr>]"]
    by simp
qed

text \<open>
  C3. The claim covers the typed maps: a selector that is not a string must give
  "no such overload". \<^verbatim>\<open>getMapStrVal\<close> does that. \<^verbatim>\<open>getMapBoolVal\<close> and
  \<^verbatim>\<open>getMapIntVal\<close> (and the float and sized-int siblings) drop the sentinel and look up
  the empty key: with the integer selector \<open>1\<close>, a \<^verbatim>\<open>map[string]bool\<close> that holds the
  key \<open>""\<close> gives its value, and an empty \<^verbatim>\<open>map[string]int\<close> gives "no such key".
\<close>

theorem typed_map_non_string_selector:
  "getElem res (MapBool [([], True)]) (IntVal 1) = Inr (GoBool True) \<and>
   getElem res (MapInt []) (IntVal 1) = Inr (RefVal (ErrVal ''no such key'')) \<and>
   getElem res (MapFloat64 []) (IntVal 1) = Inr (RefVal (ErrVal ''no such key'')) \<and>
   getElem res (MapStr []) (IntVal 1) = Inr (RefVal (ErrVal ''no such overload''))"
  by (simp add: getMapBoolVal_def getMapIntVal_def getMapFloat64Val_def getMapStrVal_def
      assertString_def NewErr_def)

text \<open>
  C4. \<^verbatim>\<open>unknownResolver.Resolve\<close> against the matching rule of the specification. When
  the activation is partial and has candidates for the variable, the first candidate that
  matches the queried path (element by element up to the shorter length, each candidate
  element the wildcard or equal to the queried one) yields the unknown sentinel tagged
  with the id of the last queried element compared, or with the variable's id when
  nothing was compared. With no candidates for the name, or none that matches, the result
  is that of the wrapped resolver.
\<close>

theorem unknownResolve_first_matching_candidate:
  "unknownResolve inner ToValue Equal vars attr =
     (case findUnknownCandidates vars (varName (variable attr)) of
        None \<Rightarrow> inner vars attr
      | Some cands \<Rightarrow>
          (case List.find (\<lambda>cand. candidateMatches ToValue Equal vars (path cand) (path attr)) cands of
             None \<Rightarrow> inner vars attr
           | Some cand \<Rightarrow>
               Inr (RefVal (UnknownVal [unknownTag (path cand) (path attr) (varID (variable attr))]),
                    True)))"
  by (cases vars)
     (simp_all add: unknownResolve_def findUnknownCandidates_def firstUnknown_find
        split: option.splits)

theorem unknownResolve_first_matching_candidate_witness:
  "unknownResolve (\<lambda>vars attr. Inr (GoString ''fallthrough'', True))
     (\<lambda>e a. if expr e = 0 then StringVal ''*'' else StringVal ''y'')
     (\<lambda>a b. BoolVal (a = b))
     (PartialActivation Map.empty
        [''x'' \<mapsto> [\<lparr>variable = \<lparr>varName = ''x'', varID = 1\<rparr>, path = [\<lparr>ID = 2, expr = 0\<rparr>]\<rparr>]])
     \<lparr>variable = \<lparr>varName = ''x'', varID = 7\<rparr>, path = [\<lparr>ID = 8, expr = 1\<rparr>]\<rparr>
   = Inr (RefVal (UnknownVal [8]), True) \<and>
   unknownResolve (\<lambda>vars attr. Inr (GoString ''fallthrough'', True))
     (\<lambda>e a. if expr e = 0 then StringVal ''*'' else StringVal ''y'')
     (\<lambda>a b. BoolVal (a = b))
     (PartialActivation Map.empty
        [''x'' \<mapsto> [\<lparr>variable = \<lparr>varName = ''x'', varID = 1\<rparr>, path = [\<lparr>ID = 2, expr = 0\<rparr>]\<rparr>]])
     \<lparr>variable = \<lparr>varName = ''z'', varID = 7\<rparr>, path = [\<lparr>ID = 8, expr = 1\<rparr>]\<rparr>
   = Inr (GoString ''fallthrough'', True)"
  by (simp add: unknownResolve_first_matching_candidate findUnknownCandidates_def
      candidateMatches_def unknownTag_def wildcard_def)

section \<open>Properties of the program\<close>

lemma scopeDepth_snoc: "scopeDepth (pre @ [inst]) = scopeDepth pre + scopeDelta inst"
  by (simp add: scopeDepth_def)

lemma scopeDepth_butlast:
  "pre \<noteq> [] \<Longrightarrow> isCall (last pre) \<Longrightarrow> scopeDepth (butlast pre) = scopeDepth pre"
proof -
  assume a: "pre \<noteq> []" and c: "isCall (last pre)"
  have "scopeDepth pre = scopeDepth (butlast pre @ [last pre])"
    using a by simp
  also have "\<dots> = scopeDepth (butlast pre) + scopeDelta (last pre)"
    by (rule scopeDepth_snoc)
  finally show ?thesis
    using c by (cases "last pre") (simp_all add: isCall_def scopeDelta_def)
qed

lemma depthOk_here:
  "scopeDepth pre = 0 \<Longrightarrow> depthOk (pre @ inst # rest) (int (length pre))"
  by (simp add: depthOk_def)

lemma depthOk_prev:
  "scopeDepth pre = 0 \<Longrightarrow> depthOk (pre @ inst # rest) (int (length pre) - 1)"
proof (cases "pre = []")
  case True
  then show ?thesis by (simp add: depthOk_def)
next
  case False
  assume d: "scopeDepth pre = 0"
  have n: "nat (int (length pre) - 1) = length pre - 1"
    by simp
  have lt: "length pre - 1 < length pre"
    using False by (cases pre) simp_all
  have nth: "(pre @ inst # rest) ! (length pre - 1) = last pre"
    using False lt by (simp add: nth_append last_conv_nth)
  have tk: "take (length pre - 1) (pre @ inst # rest) = butlast pre"
    using lt by (simp add: butlast_conv_take)
  show ?thesis
    unfolding depthOk_def n nth tk
    using scopeDepth_butlast [OF False] d by simp
qed

lemma findConstInsts_depthOk:
  "findConstInsts HasTrait rest (int (length pre)) (scopeDepth pre) cs st = Inr (cs', st') \<Longrightarrow>
   list_all (depthOk (pre @ rest)) cs \<Longrightarrow> list_all (depthOk (pre @ rest)) cs'"
proof (induction rest arbitrary: pre cs st)
  case Nil
  then show ?case by simp
next
  case (Cons inst rest)
  have len: "int (length (pre @ [inst])) = int (length pre) + 1"
    by simp
  have app: "(pre @ [inst]) @ rest = pre @ inst # rest"
    by simp
  note IH = Cons.IH [of "pre @ [inst]", unfolded len app scopeDepth_snoc]
  show ?case
  proof (cases inst)
    case (Call call)
    show ?thesis
    proof (cases "scopeDepth pre = 0")
      case False
      then show ?thesis
        using Cons.prems IH [of cs st] Call by (simp add: scopeDelta_def)
    next
      case True
      have IH0: "\<And>cs1 st1. findConstInsts HasTrait rest (int (length pre) + 1) 0 cs1 st1 = Inr (cs', st') \<Longrightarrow>
          list_all (depthOk (pre @ inst # rest)) cs1 \<Longrightarrow> list_all (depthOk (pre @ inst # rest)) cs'"
        using IH True Call by (simp add: scopeDelta_def)
      obtain b st1 where m: "maybeComputeConstCall HasTrait call st = Inr (b, st1)"
        using Cons.prems(1) Call True
        by (cases "maybeComputeConstCall HasTrait call st") auto
      define cs1 where "cs1 =
        (if b then (if Function call = operators_LogicalAnd \<or> Function call = operators_LogicalOr
                    then cs @ [int (length pre) - 1] else cs) @ [int (length pre)]
         else cs)"
      have run: "findConstInsts HasTrait rest (int (length pre) + 1) 0 cs1 st1 = Inr (cs', st')"
        using Cons.prems(1) Call True m by (cases b) (simp_all add: cs1_def)
      have ok: "list_all (depthOk (pre @ inst # rest)) cs1"
        using Cons.prems(2) depthOk_here [OF True, of inst rest] depthOk_prev [OF True, of inst rest]
        by (simp add: cs1_def)
      show ?thesis
        by (rule IH0 [OF run ok])
    qed
  qed (use Cons.prems IH [of cs st] in \<open>simp_all add: scopeDelta_def\<close>)
qed


lemma computeConstExprsWithin_enough:
  "(case Instructions p of None \<Rightarrow> 0 | Some instructions \<Rightarrow> length instructions) < n \<Longrightarrow>
   computeConstExprsWithin n HasTrait p state = Some (computeConstExprs HasTrait p state)"
proof (induction n arbitrary: p state)
  case 0
  then show ?case by simp
next
  case (Suc n)
  show ?case
  proof (cases "Instructions p")
    case None
    then show ?thesis
      by (simp add: computeConstExprs.simps)
  next
    case (Some instructions)
    show ?thesis
    proof (cases "constPass HasTrait instructions state")
      case (Next optInsts state')
      have "length optInsts < length instructions"
        by (rule constPass_Next_length [OF Next])
      then have "(case Instructions (p\<lparr>Instructions := Some optInsts\<rparr>) of
                    None \<Rightarrow> 0 | Some l \<Rightarrow> length l) < n"
        using Suc.prems Some by simp
      then show ?thesis
        using Suc.IH Some Next by (simp add: computeConstExprs.simps [of HasTrait p state])
    qed (simp_all add: Some computeConstExprs.simps [of HasTrait p state])
  qed
qed

lemma plan_exhaustive_no_shortcircuit:
  "flags p = programFlagExhaustive \<Longrightarrow>
   plan WalkExpr p state = plan (\<lambda>e m st shortcircuit. WalkExpr e m st False) p state"
  by (cases "Instructions p")
     (simp_all add: plan_def Let_def programFlagExhaustive_def programFlagTrackState_def
        programFlagNoShortCircuit_def)

text \<open>
  C5. The claim says that the extra instruction removed with a folded logical and or or is
  the conditional jump of its short-circuit. The code removes the instruction at index
  \<open>i - 1\<close> without looking at it. A program of the exhaustive mode is planned with the
  short-circuit flag off (\<open>plan_exhaustive_no_shortcircuit\<close>), so no jump was emitted:
  with two select instructions before the call and their values in the scratch state, the
  second select is removed; with the call alone, index \<open>-1\<close> is counted as removed and
  \<^verbatim>\<open>make\<close> is called with length \<open>-1\<close>.
\<close>

theorem logical_fold_removes_previous_instruction:
  "computeConstExprs HasTrait
     (p\<lparr>flags := programFlagExhaustive,
        Instructions := Some [SelectExpr 1, SelectExpr 2,
          Call \<lparr>callID = 3, Function = operators_LogicalAnd, Args = [1, 2],
                Impl = Some \<lparr>OperandTrait = 0, Unary = None, Binary = Some f\<rparr>\<rparr>]\<rparr>)
     \<lparr>valuesOf = [1 \<mapsto> a, 2 \<mapsto> b]\<rparr>
   = Inr (p\<lparr>flags := programFlagExhaustive, Instructions := Some [SelectExpr 1]\<rparr>,
          \<lparr>valuesOf = [1 \<mapsto> a, 2 \<mapsto> b, 3 \<mapsto> f a b]\<rparr>) \<and>
   computeConstExprs HasTrait
     (p\<lparr>flags := programFlagExhaustive,
        Instructions := Some
          [Call \<lparr>callID = 3, Function = operators_LogicalAnd, Args = [1, 2],
                Impl = Some \<lparr>OperandTrait = 0, Unary = None, Binary = Some f\<rparr>\<rparr>]\<rparr>)
     \<lparr>valuesOf = [1 \<mapsto> a, 2 \<mapsto> b]\<rparr>
   = Inl NegativeLen"
  by (simp add: computeConstExprs.simps constPass_def maybeComputeConstCall_def
      copyBefore.simps copyRest.simps
      operators_LogicalAnd_def operators_LogicalOr_def operators_NotStrictlyFalse_def
      operators_OldNotStrictlyFalse_def overloads_Iterator_def overloads_HasNext_def
      overloads_Next_def)

lemma findConstInsts_all_nested:
  "(\<forall>k<length rest. isCall (rest ! k) \<longrightarrow> scopeDepth (pre @ take k rest) \<noteq> 0) \<Longrightarrow>
   findConstInsts HasTrait rest i (scopeDepth pre) cs st = Inr (cs, st)"
proof (induction rest arbitrary: pre i)
  case Nil
  then show ?case by simp
next
  case (Cons inst rest)
  have here: "isCall inst \<longrightarrow> scopeDepth pre \<noteq> 0"
    using Cons.prems [rule_format, of 0] by simp
  have later: "\<forall>k<length rest. isCall (rest ! k) \<longrightarrow> scopeDepth ((pre @ [inst]) @ take k rest) \<noteq> 0"
  proof (intro allI impI)
    fix k assume k: "k < length rest" and c: "isCall (rest ! k)"
    show "scopeDepth ((pre @ [inst]) @ take k rest) \<noteq> 0"
      using Cons.prems [rule_format, of "Suc k"] k c by simp
  qed
  have IH: "findConstInsts HasTrait rest (i + 1) (scopeDepth pre + scopeDelta inst) cs st = Inr (cs, st)"
    using Cons.IH [OF later, of "i + 1"] by (simp add: scopeDepth_snoc)
  show ?case
    using here IH by (cases inst) (simp_all add: isCall_def scopeDelta_def)
qed

lemma computeConstExprs_all_nested:
  assumes "Instructions p = Some instructions"
    and "\<forall>k<length instructions. isCall (instructions ! k) \<longrightarrow> scopeDepth (take k instructions) \<noteq> 0"
  shows "computeConstExprs HasTrait p state = Inr (p, state)"
proof -
  have "findConstInsts HasTrait instructions 0 (scopeDepth []) [] state = Inr ([], state)"
    by (rule findConstInsts_all_nested) (use assms(2) in simp)
  then have "constPass HasTrait instructions state = Halt state"
    by (simp add: constPass_def scopeDepth_def)
  then show ?thesis
    using assms(1) by (simp add: computeConstExprs.simps [of HasTrait p state])
qed

text \<open>
  What the depth counter does achieve. In one pass, a call that sits at nonzero scope depth
  of the sequence which that pass scans is stepped over without calling
  \<^verbatim>\<open>maybeComputeConstCall\<close>, and its index is not among the collected indices
  \<open>constInsts\<close>; a program all of whose calls sit at nonzero depth comes back from
  \<^verbatim>\<open>computeConstExprs\<close> as it was, with the scratch state untouched.
\<close>

lemma pass_skips_nested_calls:
  "(findConstInsts HasTrait instructions 0 0 [] state = Inr (constInsts, state') \<and>
    k < length instructions \<and> instructions ! k = Call call \<and>
    scopeDepth (take k instructions) \<noteq> 0 \<longrightarrow> int k \<notin> set constInsts) \<and>
   (nested \<noteq> 0 \<longrightarrow>
      findConstInsts HasTrait (Call call # rest) i nested cs state =
      findConstInsts HasTrait rest (i + 1) nested cs state) \<and>
   (Instructions p = Some instructions \<and>
    (\<forall>j<length instructions.
       isCall (instructions ! j) \<longrightarrow> scopeDepth (take j instructions) \<noteq> 0) \<longrightarrow>
      computeConstExprs HasTrait p state = Inr (p, state))"
proof -
  have "int k \<notin> set constInsts"
    if f: "findConstInsts HasTrait instructions 0 0 [] state = Inr (constInsts, state')"
      and k: "k < length instructions" and c: "instructions ! k = Call call"
      and d: "scopeDepth (take k instructions) \<noteq> 0"
  proof
    assume m: "int k \<in> set constInsts"
    have "list_all (depthOk ([] @ instructions)) constInsts"
      by (rule findConstInsts_depthOk [where pre = "[]" and cs = "[]"])
         (use f in \<open>simp_all add: scopeDepth_def\<close>)
    then have "depthOk instructions (int k)"
      using m by (simp add: list_all_iff)
    then show False
      using k c d by (simp add: depthOk_def isCall_def)
  qed
  then show ?thesis
    using computeConstExprs_all_nested [of p instructions HasTrait state] by simp
qed

lemma pass_skips_nested_calls_example:
  "findConstInsts (\<lambda>v t. True)
     [PushScopeInst 10,
      Call \<lparr>callID = 2, Function = ''!_'', Args = [1],
            Impl = Some \<lparr>OperandTrait = 0, Unary = Some (\<lambda>v. v), Binary = None\<rparr>\<rparr>,
      PopScopeInst 11,
      Call \<lparr>callID = 3, Function = ''!_'', Args = [1],
            Impl = Some \<lparr>OperandTrait = 0, Unary = Some (\<lambda>v. v), Binary = None\<rparr>\<rparr>]
     0 0 [] \<lparr>valuesOf = [1 \<mapsto> BoolVal True]\<rparr>
   = Inr ([3], \<lparr>valuesOf = [1 \<mapsto> BoolVal True, 3 \<mapsto> BoolVal True]\<rparr>) \<and>
   scopeDepth (take 1
     [PushScopeInst 10,
      Call \<lparr>callID = 2, Function = ''!_'', Args = [1],
            Impl = Some \<lparr>OperandTrait = 0, Unary = Some (\<lambda>v. v), Binary = None\<rparr>\<rparr>,
      PopScopeInst 11,
      Call \<lparr>callID = 3, Function = ''!_'', Args = [1],
            Impl = Some \<lparr>OperandTrait = 0, Unary = Some (\<lambda>v. v), Binary = None\<rparr>\<rparr>]) = 1 \<and>
   int 1 \<notin> set [3::int] \<and>
   findConstInsts (\<lambda>v t. True)
     [Call \<lparr>callID = 2, Function = ''!_'', Args = [1],
            Impl = Some \<lparr>OperandTrait = 0, Unary = Some (\<lambda>v. v), Binary = None\<rparr>\<rparr>,
      PopScopeInst 11]
     1 1 [] \<lparr>valuesOf = [1 \<mapsto> BoolVal True]\<rparr>
   = findConstInsts (\<lambda>v t. True) [PopScopeInst 11] (1 + 1) 1 []
       \<lparr>valuesOf = [1 \<mapsto> BoolVal True]\<rparr> \<and>
   computeConstExprs (\<lambda>v t. True)
     \<lparr>expression = \<lparr>exprId = 2, tree = 0\<rparr>,
      Instructions = Some
        [PushScopeInst 10,
         Call \<lparr>callID = 2, Function = ''!_'', Args = [1],
               Impl = Some \<lparr>OperandTrait = 0, Unary = Some (\<lambda>v. v), Binary = None\<rparr>\<rparr>,
         PopScopeInst 11],
      metadata = \<lparr>LineOffsets = [], Positions = Map.empty\<rparr>, refMap = Map.empty,
      revInstructions = Map.empty, flags = 0, resultID = 2\<rparr>
     \<lparr>valuesOf = [1 \<mapsto> BoolVal True]\<rparr>
   = Inr
      (\<lparr>expression = \<lparr>exprId = 2, tree = 0\<rparr>,
        Instructions = Some
          [PushScopeInst 10,
           Call \<lparr>callID = 2, Function = ''!_'', Args = [1],
                 Impl = Some \<lparr>OperandTrait = 0, Unary = Some (\<lambda>v. v), Binary = None\<rparr>\<rparr>,
           PopScopeInst 11],
        metadata = \<lparr>LineOffsets = [], Positions = Map.empty\<rparr>, refMap = Map.empty,
        revInstructions = Map.empty, flags = 0, resultID = 2\<rparr>,
       \<lparr>valuesOf = [1 \<mapsto> BoolVal True]\<rparr>)"
proof -
  let ?c2 = "\<lparr>callID = 2, Function = ''!_'', Args = [1],
               Impl = Some \<lparr>OperandTrait = 0, Unary = Some (\<lambda>v. v), Binary = None\<rparr>\<rparr>"
  let ?c3 = "\<lparr>callID = 3, Function = ''!_'', Args = [1],
               Impl = Some \<lparr>OperandTrait = 0, Unary = Some (\<lambda>v. v), Binary = None\<rparr>\<rparr>"
  let ?insts = "[PushScopeInst 10, Call ?c2, PopScopeInst 11, Call ?c3]"
  let ?nested = "[PushScopeInst 10, Call ?c2, PopScopeInst 11]"
  let ?p = "\<lparr>expression = \<lparr>exprId = 2, tree = 0\<rparr>, Instructions = Some ?nested,
      metadata = \<lparr>LineOffsets = [], Positions = Map.empty\<rparr>, refMap = Map.empty,
      revInstructions = Map.empty, flags = 0, resultID = 2\<rparr>"
  let ?st = "\<lparr>valuesOf = [1 \<mapsto> BoolVal True]\<rparr>"
  let ?st' = "\<lparr>valuesOf = [1 \<mapsto> BoolVal True, 3 \<mapsto> BoolVal True]\<rparr>"
  have run: "findConstInsts (\<lambda>v t. True) ?insts 0 0 [] ?st = Inr ([3], ?st')"
    by (simp add: maybeComputeConstCall_def operators_LogicalAnd_def operators_LogicalOr_def
        operators_NotStrictlyFalse_def operators_OldNotStrictlyFalse_def overloads_Iterator_def
        overloads_HasNext_def overloads_Next_def)
  have depth: "scopeDepth (take 1 ?insts) = 1"
    by (simp add: scopeDepth_def scopeDelta_def)
  have k: "(1::nat) < length ?insts" and c: "?insts ! 1 = Call ?c2"
    by simp_all
  have allNested: "\<forall>j<length ?nested. isCall (?nested ! j) \<longrightarrow> scopeDepth (take j ?nested) \<noteq> 0"
    by (simp add: less_Suc_eq numeral_3_eq_3 isCall_def scopeDepth_def scopeDelta_def)
  have some: "Instructions ?p = Some ?nested"
    by simp
  show ?thesis
    using run depth k c allNested some
      pass_skips_nested_calls [where HasTrait = "\<lambda>v t. True" and instructions = ?insts
        and state = ?st and constInsts = "[3]" and state' = ?st' and k = 1 and call = ?c2
        and nested = 1 and rest = "[PopScopeInst 11]" and i = 1 and cs = "[]"]
      pass_skips_nested_calls [where HasTrait = "\<lambda>v t. True" and instructions = ?nested
        and state = ?st and p = ?p]
    by simp
qed


text \<open>
  What holds of the recursion. \<^verbatim>\<open>computeConstExprs\<close> ends: it takes at most one pass more
  than the sequence has instructions. A pass ends the call with a panic, or performs no
  folding and ends the call with the program as it is, or hands a strictly shorter
  sequence to the next pass.
\<close>

lemma computeConstExprs_pass_bound:
  "computeConstExprsWithin
     (Suc (case Instructions p of None \<Rightarrow> 0 | Some l \<Rightarrow> length l))
     HasTrait p state = Some (computeConstExprs HasTrait p state) \<and>
   (Instructions p = Some instructions \<longrightarrow>
      (case constPass HasTrait instructions state of
         Fault f \<Rightarrow> computeConstExprs HasTrait p state = Inl f
       | Halt state' \<Rightarrow>
           findConstInsts HasTrait instructions 0 0 [] state = Inr ([], state') \<and>
           computeConstExprs HasTrait p state = Inr (p, state')
       | Next optInsts state' \<Rightarrow>
           length optInsts < length instructions \<and>
           computeConstExprs HasTrait p state =
             computeConstExprs HasTrait (p\<lparr>Instructions := Some optInsts\<rparr>) state'))"
proof -
  have halt: "findConstInsts HasTrait instructions 0 0 [] state = Inr ([], state')"
    if "constPass HasTrait instructions state = Halt state'" for state'
    using that by (auto simp: constPass_def Let_def split: sum.splits if_splits)
  have pass: "case constPass HasTrait instructions state of
         Fault f \<Rightarrow> computeConstExprs HasTrait p state = Inl f
       | Halt state' \<Rightarrow>
           findConstInsts HasTrait instructions 0 0 [] state = Inr ([], state') \<and>
           computeConstExprs HasTrait p state = Inr (p, state')
       | Next optInsts state' \<Rightarrow>
           length optInsts < length instructions \<and>
           computeConstExprs HasTrait p state =
             computeConstExprs HasTrait (p\<lparr>Instructions := Some optInsts\<rparr>) state'"
    if some: "Instructions p = Some instructions"
    using some halt
    by (auto simp: computeConstExprs.simps [of HasTrait p state]
        split: passResult.splits dest: constPass_Next_length)
  have fuel: "computeConstExprsWithin
     (Suc (case Instructions p of None \<Rightarrow> 0 | Some l \<Rightarrow> length l))
     HasTrait p state = Some (computeConstExprs HasTrait p state)"
    by (rule computeConstExprsWithin_enough) simp
  show ?thesis
    using pass fuel by blast
qed

lemma computeConstExprs_pass_bound_example:
  "computeConstExprsWithin (Suc (Suc 0)) (\<lambda>v t. True)
     \<lparr>expression = \<lparr>exprId = 3, tree = 0\<rparr>,
      Instructions = Some
        [Call \<lparr>callID = 3, Function = ''!_'', Args = [1],
               Impl = Some \<lparr>OperandTrait = 0, Unary = Some (\<lambda>v. v), Binary = None\<rparr>\<rparr>],
      metadata = \<lparr>LineOffsets = [], Positions = Map.empty\<rparr>, refMap = Map.empty,
      revInstructions = Map.empty, flags = 0, resultID = 3\<rparr>
     \<lparr>valuesOf = [1 \<mapsto> BoolVal True]\<rparr>
   = Some (Inr
      (\<lparr>expression = \<lparr>exprId = 3, tree = 0\<rparr>, Instructions = Some [],
        metadata = \<lparr>LineOffsets = [], Positions = Map.empty\<rparr>, refMap = Map.empty,
        revInstructions = Map.empty, flags = 0, resultID = 3\<rparr>,
       \<lparr>valuesOf = [1 \<mapsto> BoolVal True, 3 \<mapsto> BoolVal True]\<rparr>)) \<and>
   computeConstExprs (\<lambda>v t. True)
     \<lparr>expression = \<lparr>exprId = 3, tree = 0\<rparr>,
      Instructions = Some
        [Call \<lparr>callID = 3, Function = ''!_'', Args = [1],
               Impl = Some \<lparr>OperandTrait = 0, Unary = Some (\<lambda>v. v), Binary = None\<rparr>\<rparr>],
      metadata = \<lparr>LineOffsets = [], Positions = Map.empty\<rparr>, refMap = Map.empty,
      revInstructions = Map.empty, flags = 0, resultID = 3\<rparr>
     \<lparr>valuesOf = [1 \<mapsto> BoolVal True]\<rparr>
   = Inr
      (\<lparr>expression = \<lparr>exprId = 3, tree = 0\<rparr>, Instructions = Some [],
        metadata = \<lparr>LineOffsets = [], Positions = Map.empty\<rparr>, refMap = Map.empty,
        revInstructions = Map.empty, flags = 0, resultID = 3\<rparr>,
       \<lparr>valuesOf = [1 \<mapsto> BoolVal True, 3 \<mapsto> BoolVal True]\<rparr>)"
proof -
  let ?c = "\<lparr>callID = 3, Function = ''!_'', Args = [1],
              Impl = Some \<lparr>OperandTrait = 0, Unary = Some (\<lambda>v. v), Binary = None\<rparr>\<rparr>"
  let ?p = "\<lparr>expression = \<lparr>exprId = 3, tree = 0\<rparr>, Instructions = Some [Call ?c],
      metadata = \<lparr>LineOffsets = [], Positions = Map.empty\<rparr>, refMap = Map.empty,
      revInstructions = Map.empty, flags = 0, resultID = 3\<rparr>"
  let ?st = "\<lparr>valuesOf = [1 \<mapsto> BoolVal True]\<rparr>"
  have pass1: "constPass (\<lambda>v t. True) [Call ?c] ?st
               = Next [] \<lparr>valuesOf = [1 \<mapsto> BoolVal True, 3 \<mapsto> BoolVal True]\<rparr>"
    by (simp add: constPass_def maybeComputeConstCall_def copyBefore.simps copyRest.simps
        operators_LogicalAnd_def operators_LogicalOr_def operators_NotStrictlyFalse_def
        operators_OldNotStrictlyFalse_def overloads_Iterator_def overloads_HasNext_def
        overloads_Next_def)
  have pass2: "constPass (\<lambda>v t. True) []
                 \<lparr>valuesOf = [1 \<mapsto> BoolVal True, 3 \<mapsto> BoolVal True]\<rparr>
               = Halt \<lparr>valuesOf = [1 \<mapsto> BoolVal True, 3 \<mapsto> BoolVal True]\<rparr>"
    by (simp add: constPass_def)
  show ?thesis
    using pass1 pass2 computeConstExprs_pass_bound [of ?p "\<lambda>v t. True" ?st "[Call ?c]"]
    by simp
qed

text \<open>
  C7. The claim says that each pass either removes at least one instruction or performs
  zero foldings and stops. A pass may do neither. With a logical and as the only
  instruction and its operands in the scratch state, the pass folds the call and collects
  \<open>-1, 0\<close>, then asks \<^verbatim>\<open>make\<close> for a slice of length \<open>-1\<close>. With a jump, a comparison
  and the logical and of a constant with that comparison, the pass folds both calls and
  collects \<open>1, 1, 2\<close>, then writes slot \<open>0\<close> of a slice of length zero. Both passes end in
  a panic: the call ends, but no instruction was removed and the pass did not stop with
  zero foldings.
\<close>

theorem pass_folds_then_panics:
  "findConstInsts HasTrait
     [Call \<lparr>callID = 3, Function = operators_LogicalAnd, Args = [1, 2],
            Impl = Some \<lparr>OperandTrait = 0, Unary = None, Binary = Some f\<rparr>\<rparr>]
     0 0 [] \<lparr>valuesOf = [1 \<mapsto> a, 2 \<mapsto> b]\<rparr>
   = Inr ([- 1, 0], \<lparr>valuesOf = [1 \<mapsto> a, 2 \<mapsto> b, 3 \<mapsto> f a b]\<rparr>) \<and>
   constPass HasTrait
     [Call \<lparr>callID = 3, Function = operators_LogicalAnd, Args = [1, 2],
            Impl = Some \<lparr>OperandTrait = 0, Unary = None, Binary = Some f\<rparr>\<rparr>]
     \<lparr>valuesOf = [1 \<mapsto> a, 2 \<mapsto> b]\<rparr>
   = Fault NegativeLen \<and>
   computeConstExprs HasTrait
     (p\<lparr>Instructions := Some
        [Call \<lparr>callID = 3, Function = operators_LogicalAnd, Args = [1, 2],
               Impl = Some \<lparr>OperandTrait = 0, Unary = None, Binary = Some f\<rparr>\<rparr>]\<rparr>)
     \<lparr>valuesOf = [1 \<mapsto> a, 2 \<mapsto> b]\<rparr>
   = Inl NegativeLen \<and>
   findConstInsts HasTrait
     [JumpInst 6 True,
      Call \<lparr>callID = 3, Function = ''_<_'', Args = [1, 2],
            Impl = Some \<lparr>OperandTrait = 0, Unary = None, Binary = Some g\<rparr>\<rparr>,
      Call \<lparr>callID = 5, Function = operators_LogicalAnd, Args = [4, 3],
            Impl = Some \<lparr>OperandTrait = 0, Unary = None, Binary = Some f\<rparr>\<rparr>]
     0 0 [] \<lparr>valuesOf = [1 \<mapsto> a, 2 \<mapsto> b, 4 \<mapsto> c]\<rparr>
   = Inr ([1, 1, 2],
          \<lparr>valuesOf = [1 \<mapsto> a, 2 \<mapsto> b, 4 \<mapsto> c, 3 \<mapsto> g a b, 5 \<mapsto> f c (g a b)]\<rparr>) \<and>
   constPass HasTrait
     [JumpInst 6 True,
      Call \<lparr>callID = 3, Function = ''_<_'', Args = [1, 2],
            Impl = Some \<lparr>OperandTrait = 0, Unary = None, Binary = Some g\<rparr>\<rparr>,
      Call \<lparr>callID = 5, Function = operators_LogicalAnd, Args = [4, 3],
            Impl = Some \<lparr>OperandTrait = 0, Unary = None, Binary = Some f\<rparr>\<rparr>]
     \<lparr>valuesOf = [1 \<mapsto> a, 2 \<mapsto> b, 4 \<mapsto> c]\<rparr>
   = Fault IndexOutOfRange \<and>
   computeConstExprs HasTrait
     (p\<lparr>Instructions := Some
        [JumpInst 6 True,
         Call \<lparr>callID = 3, Function = ''_<_'', Args = [1, 2],
               Impl = Some \<lparr>OperandTrait = 0, Unary = None, Binary = Some g\<rparr>\<rparr>,
         Call \<lparr>callID = 5, Function = operators_LogicalAnd, Args = [4, 3],
               Impl = Some \<lparr>OperandTrait = 0, Unary = None, Binary = Some f\<rparr>\<rparr>]\<rparr>)
     \<lparr>valuesOf = [1 \<mapsto> a, 2 \<mapsto> b, 4 \<mapsto> c]\<rparr>
   = Inl IndexOutOfRange"
  by (simp add: computeConstExprs.simps constPass_def maybeComputeConstCall_def
      copyBefore.simps copyRest.simps eval_nat_numeral
      operators_LogicalAnd_def operators_LogicalOr_def operators_NotStrictlyFalse_def
      operators_OldNotStrictlyFalse_def overloads_Iterator_def overloads_HasNext_def
      overloads_Next_def)

text \<open>
  C8. Once a call of \<^verbatim>\<open>plan\<close> has left the program with instructions, a further call,
  on any scratch state, changes neither the program (so neither the instruction sequence
  nor the reverse index) nor the state.
\<close>

theorem plan_idempotent:
  "plan WalkExpr p state = Inr (p', state') \<and> Instructions p' \<noteq> None \<longrightarrow>
     plan WalkExpr p' state'' = Inr (p', state'')"
  by (auto simp: plan_def)

theorem plan_idempotent_witness:
  "plan (\<lambda>e m st sc. (Some [PushLiteral 1, SelectExpr 2], st))
     \<lparr>expression = \<lparr>exprId = 2, tree = 0\<rparr>, Instructions = None,
      metadata = \<lparr>LineOffsets = [], Positions = Map.empty\<rparr>, refMap = Map.empty,
      revInstructions = Map.empty, flags = 0, resultID = 0\<rparr>
     \<lparr>valuesOf = Map.empty\<rparr>
   = Inr (\<lparr>expression = \<lparr>exprId = 2, tree = 0\<rparr>,
           Instructions = Some [PushLiteral 1, SelectExpr 2],
           metadata = \<lparr>LineOffsets = [], Positions = Map.empty\<rparr>, refMap = Map.empty,
           revInstructions = [1 \<mapsto> 0, 2 \<mapsto> 1], flags = 0, resultID = 2\<rparr>,
          \<lparr>valuesOf = Map.empty\<rparr>) \<and>
   plan (\<lambda>e m st sc. (Some [PushLiteral 1, SelectExpr 2], st))
     \<lparr>expression = \<lparr>exprId = 2, tree = 0\<rparr>,
      Instructions = Some [PushLiteral 1, SelectExpr 2],
      metadata = \<lparr>LineOffsets = [], Positions = Map.empty\<rparr>, refMap = Map.empty,
      revInstructions = [1 \<mapsto> 0, 2 \<mapsto> 1], flags = 0, resultID = 2\<rparr>
     \<lparr>valuesOf = [5 \<mapsto> NullValue]\<rparr>
   = Inr (\<lparr>expression = \<lparr>exprId = 2, tree = 0\<rparr>,
           Instructions = Some [PushLiteral 1, SelectExpr 2],
           metadata = \<lparr>LineOffsets = [], Positions = Map.empty\<rparr>, refMap = Map.empty,
           revInstructions = [1 \<mapsto> 0, 2 \<mapsto> 1], flags = 0, resultID = 2\<rparr>,
          \<lparr>valuesOf = [5 \<mapsto> NullValue]\<rparr>)"
proof -
  let ?W = "\<lambda>(e::Expr) (m::SourceInfo) (st::evalState) (sc::bool).
              (Some [PushLiteral 1, SelectExpr 2], st)"
  let ?p = "\<lparr>expression = \<lparr>exprId = 2, tree = 0\<rparr>, Instructions = None,
      metadata = \<lparr>LineOffsets = [], Positions = Map.empty\<rparr>, refMap = Map.empty,
      revInstructions = Map.empty, flags = 0, resultID = 0\<rparr>"
  let ?p' = "\<lparr>expression = \<lparr>exprId = 2, tree = 0\<rparr>,
      Instructions = Some [PushLiteral 1, SelectExpr 2],
      metadata = \<lparr>LineOffsets = [], Positions = Map.empty\<rparr>, refMap = Map.empty,
      revInstructions = [1 \<mapsto> 0, 2 \<mapsto> 1], flags = 0, resultID = 2\<rparr>"
  have first: "plan ?W ?p \<lparr>valuesOf = Map.empty\<rparr> = Inr (?p', \<lparr>valuesOf = Map.empty\<rparr>)"
    by (simp add: plan_def Let_def)
  have exist: "Instructions ?p' \<noteq> None"
    by simp
  show ?thesis
    using first exist
      plan_idempotent [of ?W ?p "\<lparr>valuesOf = Map.empty\<rparr>" ?p' "\<lparr>valuesOf = Map.empty\<rparr>"
        "\<lparr>valuesOf = [5 \<mapsto> NullValue]\<rparr>"]
    by simp
qed

text \<open>
  C9. The claim says that the column is the offset minus the line start that is the
  greatest one not above the offset. With line starts \<open>0, 10, 20\<close> and an expression at
  offset \<open>5\<close>, the loop breaks at \<open>10\<close> and the column is computed from it: \<open>5 - 10\<close>. Only
  for an offset on the last line (\<open>25\<close>) is the subtracted offset the start of its line.
\<close>

theorem IDLocation_column_after_break:
  "IDLocation \<lparr>LineOffsets = [0, 10, 20], Positions = (\<lambda>n. if n = 7 then Some 5 else None)\<rparr> 7
     = Some \<lparr>line = 1, column = - 5\<rparr> \<and>
   IDLocation \<lparr>LineOffsets = [0, 10, 20], Positions = (\<lambda>n. if n = 7 then Some 25 else None)\<rparr> 7
     = Some \<lparr>line = 3, column = 5\<rparr>"
  by (simp add: IDLocation_def IDOffset_def wrap32_def)

text \<open>
  C10. \<^verbatim>\<open>GetInstruction\<close> with an id that the reverse index does not hold returns the
  first instruction of a non-empty sequence; on an empty or nil sequence the call panics,
  whatever the id.
\<close>

theorem GetInstruction_absent_id:
  "(revInstructions p runtimeID = None \<and> Instructions p = Some (inst # rest) \<longrightarrow>
      GetInstruction p runtimeID = Inr inst) \<and>
   (Instructions p = None \<or> Instructions p = Some [] \<longrightarrow>
      GetInstruction p runtimeID = Inl IndexOutOfRange)"
  by (auto simp: GetInstruction_def Let_def)

theorem GetInstruction_absent_id_witness:
  "GetInstruction
     \<lparr>expression = \<lparr>exprId = 2, tree = 0\<rparr>,
      Instructions = Some [PushLiteral 1, SelectExpr 2],
      metadata = \<lparr>LineOffsets = [], Positions = Map.empty\<rparr>, refMap = Map.empty,
      revInstructions = [1 \<mapsto> 0, 2 \<mapsto> 1], flags = 0, resultID = 2\<rparr> 42
   = Inr (PushLiteral 1) \<and>
   GetInstruction
     \<lparr>expression = \<lparr>exprId = 2, tree = 0\<rparr>, Instructions = None,
      metadata = \<lparr>LineOffsets = [], Positions = Map.empty\<rparr>, refMap = Map.empty,
      revInstructions = [1 \<mapsto> 0, 2 \<mapsto> 1], flags = 0, resultID = 2\<rparr> 2
   = Inl IndexOutOfRange \<and>
   GetInstruction
     \<lparr>expression = \<lparr>exprId = 2, tree = 0\<rparr>, Instructions = Some [],
      metadata = \<lparr>LineOffsets = [], Positions = Map.empty\<rparr>, refMap = Map.empty,
      revInstructions = Map.empty, flags = 0, resultID = 2\<rparr> 42
   = Inl IndexOutOfRange"
  using
    GetInstruction_absent_id [of
      "\<lparr>expression = \<lparr>exprId = 2, tree = 0\<rparr>,
        Instructions = Some [PushLiteral 1, SelectExpr 2],
        metadata = \<lparr>LineOffsets = [], Positions = Map.empty\<rparr>, refMap = Map.empty,
        revInstructions = [1 \<mapsto> 0, 2 \<mapsto> 1], flags = 0, resultID = 2\<rparr>"
      42 "PushLiteral 1" "[SelectExpr 2]"]
    GetInstruction_absent_id [of
      "\<lparr>expression = \<lparr>exprId = 2, tree = 0\<rparr>, Instructions = None,
        metadata = \<lparr>LineOffsets = [], Positions = Map.empty\<rparr>, refMap = Map.empty,
        revInstructions = [1 \<mapsto> 0, 2 \<mapsto> 1], flags = 0, resultID = 2\<rparr>"
      2]
    GetInstruction_absent_id [of
      "\<lparr>expression = \<lparr>exprId = 2, tree = 0\<rparr>, Instructions = Some [],
        metadata = \<lparr>LineOffsets = [], Positions = Map.empty\<rparr>, refMap = Map.empty,
        revInstructions = Map.empty, flags = 0, resultID = 2\<rparr>"
      42]
  by simp

end
